theory Spec2Isabelle
  imports Complex_Main "HOL-Library.Char_ord"
begin

section \<open>Regular expressions of the decision agent\<close>

text \<open>
  The decision agent (\<^verbatim>\<open>backend/src/agents/decision.js\<close>) only asks whether a pattern
  occurs somewhere in a string (\<^verbatim>\<open>pattern.test(s)\<close>, truthiness of \<^verbatim>\<open>s.match(pattern)\<close>).
  All its patterns carry the flag \<^verbatim>\<open>i\<close> and none carries \<^verbatim>\<open>g\<close>, \<^verbatim>\<open>y\<close> or \<^verbatim>\<open>u\<close>, so a test is
  stateless and letters are compared without regard to case.

  Strings are modelled as HOL strings (lists of 8-bit characters): the model covers
  queries of ASCII text. Numbers of the source (IEEE doubles) are modelled as exact reals.
\<close>

definition is_upper :: "char \<Rightarrow> bool" where
  "is_upper c = (CHR ''A'' \<le> c \<and> c \<le> CHR ''Z'')"

definition is_lower :: "char \<Rightarrow> bool" where
  "is_lower c = (CHR ''a'' \<le> c \<and> c \<le> CHR ''z'')"

definition is_digit :: "char \<Rightarrow> bool" where
  "is_digit c = (CHR ''0'' \<le> c \<and> c \<le> CHR ''9'')"

text \<open>\<^verbatim>\<open>\w\<close>: the class \<^verbatim>\<open>[A-Za-z0-9_]\<close>.\<close>

definition is_word :: "char \<Rightarrow> bool" where
  "is_word c = (is_upper c \<or> is_lower c \<or> is_digit c \<or> c = CHR ''_'')"

text \<open>\<^verbatim>\<open>\s\<close> on ASCII: tab, line feed, vertical tab, form feed, carriage return, space.\<close>

definition is_space :: "char \<Rightarrow> bool" where
  "is_space c = (c \<in> set [CHR 0x09, CHR 0x0A, CHR 0x0B, CHR 0x0C, CHR 0x0D, CHR 0x20])"

text \<open>The dot matches every character but a line terminator.\<close>

definition is_line_terminator :: "char \<Rightarrow> bool" where
  "is_line_terminator c = (c = CHR 0x0A \<or> c = CHR 0x0D)"

text \<open>
  Lowercasing an ASCII capital adds 32 to its code, that is, sets bit 5 (which is clear in
  the codes 0x41 to 0x5A).
\<close>

definition to_lower :: "char \<Rightarrow> char" where
  "to_lower c =
     (if is_upper c
      then (case c of Char b0 b1 b2 b3 b4 b5 b6 b7 \<Rightarrow> Char b0 b1 b2 b3 b4 True b6 b7)
      else c)"

definition toLowerCase :: "string \<Rightarrow> string" where
  "toLowerCase s = map to_lower s"

datatype regex =
    Lit char
  | Digit
  | Space
  | NotSpace
  | AnyChar
  | OneOf "char list"
  | WordB
  | Eps
  | Seq regex regex
  | Alt regex regex
  | Star regex

text \<open>
  A position in the subject string: the character just before it (if any) and the rest of
  the string from it. The character before is what \<^verbatim>\<open>\b\<close> looks at.
\<close>

type_synonym pos = "char option \<times> string"

definition word_before :: "pos \<Rightarrow> bool" where
  "word_before p = (case fst p of None \<Rightarrow> False | Some c \<Rightarrow> is_word c)"

definition word_after :: "pos \<Rightarrow> bool" where
  "word_after p = (case snd p of [] \<Rightarrow> False | c # _ \<Rightarrow> is_word c)"

definition eat :: "(char \<Rightarrow> bool) \<Rightarrow> pos \<Rightarrow> pos list" where
  "eat P p = (case snd p of [] \<Rightarrow> [] | c # cs \<Rightarrow> if P c then [(Some c, cs)] else [])"

text \<open>
  Iteration of a matcher, at most \<open>n\<close> rounds; a round that consumes nothing is dropped,
  as the empty check of a quantifier does.
\<close>

fun star_n :: "nat \<Rightarrow> (pos \<Rightarrow> pos list) \<Rightarrow> pos \<Rightarrow> pos list" where
  "star_n 0 f p = [p]"
| "star_n (Suc n) f p =
     p # concat (map (star_n n f) (filter (\<lambda>q. length (snd q) < length (snd p)) (f p)))"

text \<open>
  \<open>ends r p\<close> lists the positions at which a match of \<open>r\<close> that starts at \<open>p\<close> can end.
  A test only asks whether some match exists, so the order in which a backtracking matcher
  would try them does not matter.
\<close>

primrec ends :: "regex \<Rightarrow> pos \<Rightarrow> pos list" where
  "ends (Lit c) = eat (\<lambda>x. to_lower x = to_lower c)"
| "ends Digit = eat is_digit"
| "ends Space = eat is_space"
| "ends NotSpace = eat (\<lambda>x. \<not> is_space x)"
| "ends AnyChar = eat (\<lambda>x. \<not> is_line_terminator x)"
| "ends (OneOf cs) = eat (\<lambda>x. to_lower x \<in> set (map to_lower cs))"
| "ends WordB = (\<lambda>p. if word_before p \<noteq> word_after p then [p] else [])"
| "ends Eps = (\<lambda>p. [p])"
| "ends (Seq a b) = (\<lambda>p. concat (map (ends b) (ends a p)))"
| "ends (Alt a b) = (\<lambda>p. ends a p @ ends b p)"
| "ends (Star a) = (\<lambda>p. star_n (length (snd p)) (ends a) p)"

text \<open>An unanchored search: try every start position from left to right.\<close>

fun search_from :: "regex \<Rightarrow> char option \<Rightarrow> string \<Rightarrow> bool" where
  "search_from r prev [] = (ends r (prev, []) \<noteq> [])"
| "search_from r prev (c # cs) = (ends r (prev, c # cs) \<noteq> [] \<or> search_from r (Some c) cs)"

definition test :: "regex \<Rightarrow> string \<Rightarrow> bool" where
  "test r s = search_from r None s"

text \<open>Pattern syntax: a literal string, one or more, optional, exactly \<open>n\<close>, at least \<open>n\<close>.\<close>

definition Str :: "string \<Rightarrow> regex" where
  "Str s = foldr (\<lambda>c r. Seq (Lit c) r) s Eps"

definition Plus :: "regex \<Rightarrow> regex" where
  "Plus r = Seq r (Star r)"

definition Opt :: "regex \<Rightarrow> regex" where
  "Opt r = Alt r Eps"

primrec Rep :: "nat \<Rightarrow> regex \<Rightarrow> regex" where
  "Rep 0 r = Eps"
| "Rep (Suc n) r = Seq r (Rep n r)"

definition AtLeast :: "nat \<Rightarrow> regex \<Rightarrow> regex" where
  "AtLeast n r = Seq (Rep n r) (Star r)"

text \<open>\<^verbatim>\<open>a|b|c\<close>; the empty alternation (not used by the agent) matches nothing.\<close>

fun Alts :: "regex list \<Rightarrow> regex" where
  "Alts [] = OneOf []"
| "Alts [r] = r"
| "Alts (r # rs) = Alt r (Alts rs)"

text \<open>\<^verbatim>\<open>/\b(...)\b/i\<close>: the shape of every pattern of the agent.\<close>

definition Bounded :: "regex \<Rightarrow> regex" where
  "Bounded r = Seq WordB (Seq r WordB)"

section \<open>The decision agent\<close>

subsection \<open>Pattern tables\<close>

text \<open>\<^verbatim>\<open>patterns.specificIdentifiers\<close>, in the order of the source.\<close>

definition nct :: regex where
  \<comment> \<open>\<^verbatim>\<open>/\b(NCT\d{8})\b/i\<close>\<close>
  "nct = Bounded (Seq (Str ''NCT'') (Rep 8 Digit))"

definition pmid :: regex where
  \<comment> \<open>\<^verbatim>\<open>/\b(PMID:?\s*\d+|PMC\d+)\b/i\<close>\<close>
  "pmid = Bounded (Alts
     [Seq (Str ''PMID'') (Seq (Opt (Lit CHR '':'')) (Seq (Star Space) (Plus Digit))),
      Seq (Str ''PMC'') (Plus Digit)])"

definition doi :: regex where
  \<comment> \<open>\<^verbatim>\<open>/\b(10\.\d{4,}\/[^\s]+)\b/i\<close>\<close>
  "doi = Bounded (Seq (Str ''10.'') (Seq (AtLeast 4 Digit) (Seq (Lit CHR ''/'') (Plus NotSpace))))"

definition fda :: regex where
  \<comment> \<open>\<^verbatim>\<open>/\b(NDA\s*\d+|ANDA\s*\d+|BLA\s*\d+)\b/i\<close>\<close>
  "fda = Bounded (Alts
     [Seq (Str ''NDA'') (Seq (Star Space) (Plus Digit)),
      Seq (Str ''ANDA'') (Seq (Star Space) (Plus Digit)),
      Seq (Str ''BLA'') (Seq (Star Space) (Plus Digit))])"

text \<open>
  \<^verbatim>\<open>patterns.domains\<close>: each domain has its patterns, its sources and its base confidence.
  \<^verbatim>\<open>Object.entries\<close> yields the domains in the order in which the object literal lists them,
  so the table is a list in that order.
\<close>

record domain_config =
  dc_patterns :: "regex list"
  dc_sources :: "string list"
  dc_confidence :: real

text \<open>
  The patterns of \<^verbatim>\<open>clinicalTrial\<close>, in the order of the source:

  \<^verbatim>\<open>/\b(clinical trial|study protocol|NCT\d{8})\b/i\<close>
  \<^verbatim>\<open>/\b(phase\s*[I|II|III|1|2|3]|recruitment|enrollment)\b/i\<close>
  \<^verbatim>\<open>/\b(randomized|controlled|placebo|double.blind)\b/i\<close>
\<close>

definition clinicalTrial :: domain_config where
  "clinicalTrial = \<lparr>
     dc_patterns =
       [Bounded (Alts [Str ''clinical trial'', Str ''study protocol'',
                       Seq (Str ''NCT'') (Rep 8 Digit)]),
        Bounded (Alts [Seq (Str ''phase'') (Seq (Star Space) (OneOf ''I|II|III|1|2|3'')),
                       Str ''recruitment'', Str ''enrollment'']),
        Bounded (Alts [Str ''randomized'', Str ''controlled'', Str ''placebo'',
                       Seq (Str ''double'') (Seq AnyChar (Str ''blind''))])],
     dc_sources = [''clinicaltrials'', ''pubmed''],
     dc_confidence = 85 / 100 \<rparr>"

text \<open>
  The patterns of \<^verbatim>\<open>drugSafety\<close>, in the order of the source:

  \<^verbatim>\<open>/\b(side effect|adverse event|safety|toxicity)\b/i\<close>
  \<^verbatim>\<open>/\b(FDA\s*(approval|warning|recall))\b/i\<close>
  \<^verbatim>\<open>/\b(contraindication|black box|warning)\b/i\<close>
\<close>

definition drugSafety :: domain_config where
  "drugSafety = \<lparr>
     dc_patterns =
       [Bounded (Alts [Str ''side effect'', Str ''adverse event'', Str ''safety'',
                       Str ''toxicity'']),
        Bounded (Seq (Str ''FDA'') (Seq (Star Space)
                       (Alts [Str ''approval'', Str ''warning'', Str ''recall'']))),
        Bounded (Alts [Str ''contraindication'', Str ''black box'', Str ''warning''])],
     dc_sources = [''openfda'', ''pubmed''],
     dc_confidence = 9 / 10 \<rparr>"

text \<open>
  The patterns of \<^verbatim>\<open>drugInfo\<close>, in the order of the source:

  \<^verbatim>\<open>/\b(drug|medication|pharmaceutical|therapeutic)\b/i\<close>
  \<^verbatim>\<open>/\b(dosage|administration|indication|mechanism)\b/i\<close>
  \<^verbatim>\<open>/\b(prescription|over.the.counter|OTC)\b/i\<close>
\<close>

definition drugInfo :: domain_config where
  "drugInfo = \<lparr>
     dc_patterns =
       [Bounded (Alts [Str ''drug'', Str ''medication'', Str ''pharmaceutical'',
                       Str ''therapeutic'']),
        Bounded (Alts [Str ''dosage'', Str ''administration'', Str ''indication'',
                       Str ''mechanism'']),
        Bounded (Alts [Str ''prescription'',
                       Seq (Str ''over'') (Seq AnyChar (Seq (Str ''the'')
                         (Seq AnyChar (Str ''counter'')))),
                       Str ''OTC''])],
     dc_sources = [''openfda'', ''pubmed'', ''clinicaltrials''],
     dc_confidence = 8 / 10 \<rparr>"

text \<open>
  The patterns of \<^verbatim>\<open>literatureReview\<close>, in the order of the source:

  \<^verbatim>\<open>/\b(meta.analysis|systematic review|literature)\b/i\<close>
  \<^verbatim>\<open>/\b(research|study|investigation|analysis)\b/i\<close>
  \<^verbatim>\<open>/\b(evidence|findings|results|outcomes)\b/i\<close>
\<close>

definition literatureReview :: domain_config where
  "literatureReview = \<lparr>
     dc_patterns =
       [Bounded (Alts [Seq (Str ''meta'') (Seq AnyChar (Str ''analysis'')),
                       Str ''systematic review'', Str ''literature'']),
        Bounded (Alts [Str ''research'', Str ''study'', Str ''investigation'',
                       Str ''analysis'']),
        Bounded (Alts [Str ''evidence'', Str ''findings'', Str ''results'', Str ''outcomes''])],
     dc_sources = [''pubmed''],
     dc_confidence = 75 / 100 \<rparr>"

definition domains :: "(string \<times> domain_config) list" where
  "domains = [(''clinicalTrial'', clinicalTrial), (''drugSafety'', drugSafety),
              (''drugInfo'', drugInfo), (''literatureReview'', literatureReview)]"

subsection \<open>Operations\<close>

text \<open>
  \<^verbatim>\<open>calculateDomainScore\<close>: 0.4 for every pattern that occurs in the lowercased query, the sum
  capped at 1.
\<close>

definition calculateDomainScore :: "string \<Rightarrow> regex list \<Rightarrow> real" where
  "calculateDomainScore query ps =
     (let queryLower = toLowerCase query;
          score = foldl (\<lambda>score pattern.
                    if test pattern queryLower then score + 4 / 10 else score) 0 ps
      in min score 1)"

text \<open>
  \<^verbatim>\<open>checkSpecificIdentifiers\<close>: the trial-registry pattern first, then the literature
  pattern; these two are the only members of \<^verbatim>\<open>specificIdentifiers\<close> the function consults.
  The matched text (\<^verbatim>\<open>identifier\<close>) only feeds the reasoning string and is left out.
\<close>

record specific_match =
  sm_found :: bool
  sm_type :: string
  sm_sources :: "string list"

definition checkSpecificIdentifiers :: "string \<Rightarrow> specific_match" where
  "checkSpecificIdentifiers query =
     (if test nct query then
        \<lparr>sm_found = True, sm_type = ''clinical_trial_lookup'',
         sm_sources = [''clinicaltrials'', ''pubmed'']\<rparr>
      else if test pmid query then
        \<lparr>sm_found = True, sm_type = ''literature_lookup'', sm_sources = [''pubmed'']\<rparr>
      else \<lparr>sm_found = False, sm_type = [], sm_sources = []\<rparr>)"

text \<open>
  \<^verbatim>\<open>classifyDomain\<close>: the loop keeps the best raw score seen so far and the match that
  produced it; a later domain replaces it only with a strictly greater raw score.
\<close>

record domain_match =
  dm_domain :: "string option"
  dm_sources :: "string list"
  dm_confidence :: real

definition classify_step ::
  "string \<Rightarrow> domain_match option \<times> real \<Rightarrow> string \<times> domain_config
     \<Rightarrow> domain_match option \<times> real" where
  "classify_step query acc entry =
     (let (bestMatch, bestScore) = acc;
          (domain, config) = entry;
          matchScore = calculateDomainScore query (dc_patterns config)
      in if matchScore > bestScore
         then (Some \<lparr>dm_domain = Some domain, dm_sources = dc_sources config,
                      dm_confidence = dc_confidence config * matchScore\<rparr>, matchScore)
         else (bestMatch, bestScore))"

definition classify_loop ::
  "string \<Rightarrow> (string \<times> domain_config) list \<Rightarrow> domain_match option \<times> real" where
  "classify_loop query table = foldl (classify_step query) (None, 0) table"

definition classifyDomain :: "string \<Rightarrow> domain_match" where
  "classifyDomain query =
     (case classify_loop query domains of
        (Some bestMatch, bestScore) \<Rightarrow>
          if bestScore > 3 / 10 then bestMatch
          else \<lparr>dm_domain = None, dm_sources = [], dm_confidence = 0\<rparr>
      | (None, bestScore) \<Rightarrow> \<lparr>dm_domain = None, dm_sources = [], dm_confidence = 0\<rparr>)"

text \<open>
  \<^verbatim>\<open>decide\<close>. The fields \<^verbatim>\<open>reasoning\<close> (a text for the reader) and \<^verbatim>\<open>processingTimeMs\<close>
  (wall-clock time) are left out; \<^verbatim>\<open>context\<close> is not read by the source.
\<close>

record decision =
  useDocuments :: bool
  useExternal :: bool
  documentQuery :: string
  externalSources :: "string list"
  intent :: string
  confidence :: real

definition decision0 :: decision where
  "decision0 = \<lparr>useDocuments = False, useExternal = True, documentQuery = [],
                 externalSources = [], intent = ''general_medical'', confidence = 5 / 10\<rparr>"

definition decide :: "string \<Rightarrow> decision" where
  "decide query =
     (let specificMatch = checkSpecificIdentifiers query in
      if sm_found specificMatch then
        decision0\<lparr>useExternal := True, externalSources := sm_sources specificMatch,
                  intent := sm_type specificMatch, confidence := 95 / 100\<rparr>
      else
        let domainMatch = classifyDomain query in
        case dm_domain domainMatch of
          Some d \<Rightarrow>
            decision0\<lparr>useExternal := True, externalSources := dm_sources domainMatch,
                      intent := d, confidence := dm_confidence domainMatch\<rparr>
        | None \<Rightarrow>
            decision0\<lparr>useExternal := True, externalSources := [''pubmed''],
                      confidence := 6 / 10\<rparr>)"

subsection \<open>Scores of a table entry\<close>

text \<open>
  The raw score of a domain of the table for a query, the match that the loop of
  \<^verbatim>\<open>classifyDomain\<close> builds from it, and the result for no match.
\<close>

definition raw_score :: "string \<Rightarrow> string \<times> domain_config \<Rightarrow> real" where
  "raw_score query entry = calculateDomainScore query (dc_patterns (snd entry))"

definition match_of :: "string \<Rightarrow> string \<times> domain_config \<Rightarrow> domain_match" where
  "match_of query entry =
     \<lparr>dm_domain = Some (fst entry), dm_sources = dc_sources (snd entry),
      dm_confidence = dc_confidence (snd entry) * raw_score query entry\<rparr>"

definition no_match :: domain_match where
  "no_match = \<lparr>dm_domain = None, dm_sources = [], dm_confidence = 0\<rparr>"

text \<open>
  The selection rule in the words of the specification, for comparison with
  \<open>classifyDomain\<close>: among the domains whose raw score exceeds 0.3, the one with the highest
  product of raw score and base confidence, the earlier one on equal products; no domain if
  none exceeds the threshold.
\<close>

definition combined_score :: "string \<Rightarrow> string \<times> domain_config \<Rightarrow> real" where
  "combined_score query entry = raw_score query entry * dc_confidence (snd entry)"

definition spec_classifyDomain :: "string \<Rightarrow> string option" where
  "spec_classifyDomain query =
     (case filter (\<lambda>e. raw_score query e > 3 / 10) domains of
        [] \<Rightarrow> None
      | c # cs \<Rightarrow>
          Some (fst (foldl (\<lambda>best e. if combined_score query e > combined_score query best
                                      then e else best) c cs)))"

section \<open>The cache manager\<close>

text \<open>
  \<^verbatim>\<open>backend/src/utils/cache.js\<close>. Times are milliseconds since the epoch (\<^verbatim>\<open>Date.now()\<close>),
  passed to each operation as \<open>now\<close>; TTLs are whole seconds. Cached values are taken from
  an arbitrary type of JSON-serialisable values, so \<^verbatim>\<open>JSON.stringify\<close> does not throw.
\<close>

subsection \<open>A JavaScript \<^verbatim>\<open>Map\<close>\<close>

text \<open>
  A \<^verbatim>\<open>Map\<close> iterates in insertion order: it is an association list with distinct keys.
  Setting a key that is present keeps its place; a new key goes to the end.
\<close>

type_synonym ('k, 'v) js_map = "('k \<times> 'v) list"

definition map_get :: "('k, 'v) js_map \<Rightarrow> 'k \<Rightarrow> 'v option" where
  "map_get m k = map_of m k"

fun map_set :: "('k, 'v) js_map \<Rightarrow> 'k \<Rightarrow> 'v \<Rightarrow> ('k, 'v) js_map" where
  "map_set [] k v = [(k, v)]"
| "map_set ((k', v') # m) k v = (if k' = k then (k, v) # m else (k', v') # map_set m k v)"

definition map_delete :: "('k, 'v) js_map \<Rightarrow> 'k \<Rightarrow> ('k, 'v) js_map" where
  "map_delete m k = filter (\<lambda>e. fst e \<noteq> k) m"

text \<open>\<^verbatim>\<open>m.keys().next().value\<close>: the first key, \<^verbatim>\<open>undefined\<close> (here \<open>None\<close>) on an empty map.\<close>

definition first_key :: "('k, 'v) js_map \<Rightarrow> 'k option" where
  "first_key m = (case m of [] \<Rightarrow> None | e # _ \<Rightarrow> Some (fst e))"

text \<open>The keys of a \<^verbatim>\<open>Map\<close> are distinct.\<close>

definition map_wf :: "('k, 'v) js_map \<Rightarrow> bool" where
  "map_wf m = distinct (map fst m)"

subsection \<open>Key derivation\<close>

definition b64_alphabet :: string where
  "b64_alphabet = ''ABCDEFGHIJKLMNOPQRSTUVWXYZabcdefghijklmnopqrstuvwxyz0123456789+/''"

definition b64_char :: "nat \<Rightarrow> char" where
  "b64_char n = b64_alphabet ! (n mod 64)"

fun base64 :: "nat list \<Rightarrow> string" where
  "base64 [] = []"
| "base64 [a] = [b64_char (a div 4), b64_char ((a mod 4) * 16), CHR ''='', CHR ''='']"
| "base64 [a, b] =
     [b64_char (a div 4), b64_char ((a mod 4) * 16 + b div 16), b64_char ((b mod 16) * 4),
      CHR ''='']"
| "base64 (a # b # c # bs) =
     [b64_char (a div 4), b64_char ((a mod 4) * 16 + b div 16),
      b64_char ((b mod 16) * 4 + c div 64), b64_char (c mod 64)] @ base64 bs"

text \<open>
  \<^verbatim>\<open>`medical_agent:${Buffer.from(input).toString('base64').substring(0, 32)}`\<close>; the bytes of
  an ASCII string are the codes of its characters.
\<close>

definition generateKey :: "string \<Rightarrow> string" where
  "generateKey input = ''medical_agent:'' @ take 32 (base64 (map of_char input))"

subsection \<open>State and operations\<close>

record 'v cache_entry =
  data :: 'v
  expiry :: int

text \<open>
  The durable tier is an external service. It is present only when a backend URL is
  configured; otherwise \<^verbatim>\<open>redisClient\<close> stays \<^verbatim>\<open>null\<close> (here \<open>None\<close>). When present it is
  modelled by its contract: a keyed store whose entries expire on their own, read back
  through \<^verbatim>\<open>JSON.parse\<close> as the value that was written; its I/O errors, which the source
  logs and treats as a miss, are not modelled.
\<close>

record 'v cache_manager =
  redisClient :: "(string \<rightharpoonup> 'v cache_entry) option"
  memoryCache :: "(string, 'v cache_entry) js_map"
  maxMemoryItems :: nat
  defaultTTL :: int

text \<open>The constructor, in the configuration without a backend URL.\<close>

definition CacheManager :: "'v cache_manager" where
  "CacheManager = \<lparr>redisClient = None, memoryCache = [], maxMemoryItems = 1000,
                    defaultTTL = 3600\<rparr>"

definition get :: "'v cache_manager \<Rightarrow> string \<Rightarrow> int \<Rightarrow> 'v option" where
  "get c key now =
     (let cacheKey = generateKey key;
          cached = (case redisClient c of
                      None \<Rightarrow> None
                    | Some store \<Rightarrow>
                        (case store cacheKey of
                           None \<Rightarrow> None
                         | Some e \<Rightarrow> if now < expiry e then Some (data e) else None))
      in case cached of
           Some v \<Rightarrow> Some v
         | None \<Rightarrow>
             (case map_get (memoryCache c) cacheKey of
                Some memoryResult \<Rightarrow>
                  if now < expiry memoryResult then Some (data memoryResult) else None
              | None \<Rightarrow> None))"

definition setMemoryCache ::
  "'v cache_manager \<Rightarrow> string \<Rightarrow> 'v \<Rightarrow> int \<Rightarrow> int \<Rightarrow> 'v cache_manager" where
  "setMemoryCache c key v ttl now =
     (let m = (if length (memoryCache c) \<ge> maxMemoryItems c
               then (case first_key (memoryCache c) of
                       Some oldestKey \<Rightarrow> map_delete (memoryCache c) oldestKey
                     | None \<Rightarrow> memoryCache c)
               else memoryCache c)
      in c\<lparr>memoryCache := map_set m key \<lparr>data = v, expiry = now + ttl * 1000\<rparr>\<rparr>)"

text \<open>\<^verbatim>\<open>set(key, value, ttl = this.defaultTTL)\<close>: \<open>None\<close> stands for an omitted argument.\<close>

definition set_cache ::
  "'v cache_manager \<Rightarrow> string \<Rightarrow> 'v \<Rightarrow> int option \<Rightarrow> int \<Rightarrow> 'v cache_manager" where
  "set_cache c key v ttl_arg now =
     (let ttl = (case ttl_arg of None \<Rightarrow> defaultTTL c | Some t \<Rightarrow> t);
          cacheKey = generateKey key;
          c1 = (case redisClient c of
                  None \<Rightarrow> c
                | Some store \<Rightarrow>
                    c\<lparr>redisClient :=
                        Some (store(cacheKey \<mapsto> \<lparr>data = v, expiry = now + ttl * 1000\<rparr>))\<rparr>)
      in setMemoryCache c1 cacheKey v ttl now)"

text \<open>A run of \<^verbatim>\<open>set\<close> calls on a fresh cache manager: (key, value, ttl argument, time).\<close>

fun run_sets ::
  "'v cache_manager \<Rightarrow> (string \<times> 'v \<times> int option \<times> int) list \<Rightarrow> 'v cache_manager" where
  "run_sets c [] = c"
| "run_sets c ((key, v, ttl_arg, now) # calls) = run_sets (set_cache c key v ttl_arg now) calls"

text \<open>A cache manager whose in-process tier is full: 1000 entries under distinct keys.\<close>

definition full_cache :: "nat cache_manager" where
  "full_cache = \<lparr>redisClient = None,
      memoryCache = map (\<lambda>i. (replicate (Suc i) CHR ''k'', \<lparr>data = i, expiry = 0\<rparr>)) [0..<1000],
      maxMemoryItems = 1000, defaultTTL = 3600\<rparr>"

section \<open>The rate limiter\<close>

text \<open>
  \<^verbatim>\<open>backend/src/utils/rateLimiter.js\<close>. \<^verbatim>\<open>refillRate\<close> divides in two places; the model is
  meant for \<open>refillRate \<noteq> 0\<close> (the source's numbers give infinity or NaN there, HOL gives \<open>0\<close>).
\<close>

subsection \<open>Double-precision arithmetic\<close>

text \<open>
  The token credit and the waiting time are quotients and products of numbers, and the
  source computes them in IEEE 754 binary64: each division and each multiplication yields
  the double nearest to the exact result, ties going to the even significand. \<open>fl x\<close> is that
  double, as a real: the magnitude is scaled to an integer significand of 53 bits (fewer at
  the smallest exponent, \<open>-1074\<close>, where doubles are subnormal), the significand is rounded,
  and the scale is put back. Magnitudes of \<open>2 ^ 1024\<close> and more, which no double holds, are
  outside the model.
\<close>

definition round_even :: "real \<Rightarrow> int" where
  "round_even x =
     (let f = \<lfloor>x\<rfloor>; d = x - of_int f
      in if d < 1 / 2 then f else if 1 / 2 < d then f + 1 else if even f then f else f + 1)"

function scale_down :: "real \<Rightarrow> int \<Rightarrow> real \<times> int" where
  "scale_down m e = (if 2 ^ 53 \<le> m then scale_down (m / 2) (e + 1) else (m, e))"
  by pat_completeness auto
termination
proof (relation "measure (\<lambda>(m, e). nat \<lfloor>m\<rfloor>)")
  show "wf (measure (\<lambda>(m, e). nat \<lfloor>m\<rfloor>))"
    by simp
next
  fix m :: real and e :: int
  assume m: "2 ^ 53 \<le> m"
  have "2 < m"
    using m by simp
  have "of_int \<lfloor>m / 2\<rfloor> \<le> m / 2"
    by (rule of_int_floor_le)
  moreover have "m - 1 < of_int \<lfloor>m\<rfloor>"
    by linarith
  moreover note \<open>2 < m\<close>
  ultimately have "(of_int \<lfloor>m / 2\<rfloor> :: real) < of_int \<lfloor>m\<rfloor>"
    by linarith
  then have "\<lfloor>m / 2\<rfloor> < \<lfloor>m\<rfloor>"
    by simp
  moreover have "0 < \<lfloor>m\<rfloor>"
    using \<open>2 < m\<close> by simp
  ultimately show "((m / 2, e + 1), (m, e)) \<in> measure (\<lambda>(m, e). nat \<lfloor>m\<rfloor>)"
    by simp
qed

function scale_up :: "real \<Rightarrow> int \<Rightarrow> real \<times> int" where
  "scale_up m e = (if m < 2 ^ 52 \<and> - 1074 < e then scale_up (m * 2) (e - 1) else (m, e))"
  by pat_completeness auto
termination
  by (relation "measure (\<lambda>(m, e). nat (e + 1074))") auto

declare scale_down.simps [simp del] scale_up.simps [simp del]

definition pow2 :: "int \<Rightarrow> real" where
  "pow2 e = (if 0 \<le> e then 2 ^ nat e else 1 / 2 ^ nat (- e))"

definition fl :: "real \<Rightarrow> real" where
  "fl x =
     (if x = 0 then 0
      else
        let (m1, e1) = scale_down \<bar>x\<bar> 0;
            (m, e) = scale_up m1 e1
        in sgn x * of_int (round_even m) * pow2 e)"

subsection \<open>State and operations\<close>

text \<open>
  Times are whole milliseconds, and their differences are exact. Token counts are the
  capacity, plus whole credits, minus whole tokens; these sums are taken exactly, as they
  are in doubles for a whole capacity below \<open>2 ^ 53\<close>.
\<close>

record rate_limiter =
  capacity :: real
  tokens :: real
  refillRate :: real
  lastRefill :: int

definition RateLimiter :: "real \<Rightarrow> real \<Rightarrow> int \<Rightarrow> rate_limiter" where
  "RateLimiter cap rate now =
     \<lparr>capacity = cap, tokens = cap, refillRate = rate, lastRefill = now\<rparr>"

text \<open>
  \<^verbatim>\<open>Math.floor((timePassed / 1000) * (this.capacity / this.refillRate))\<close>: two quotients and
  their product, each rounded to a double, then the floor.
\<close>

definition tokensToAdd :: "rate_limiter \<Rightarrow> int \<Rightarrow> int" where
  "tokensToAdd rl now =
     (let timePassed = now - lastRefill rl
      in \<lfloor>fl (fl (of_int timePassed / 1000) * fl (capacity rl / refillRate rl))\<rfloor>)"

definition refill :: "rate_limiter \<Rightarrow> int \<Rightarrow> rate_limiter" where
  "refill rl now =
     rl\<lparr>tokens := min (capacity rl) (tokens rl + of_int (tokensToAdd rl now)),
        lastRefill := now\<rparr>"

text \<open>\<^verbatim>\<open>Math.ceil((1 / this.refillRate) * 1000)\<close>, in doubles as well.\<close>

definition waitTime :: "rate_limiter \<Rightarrow> int" where
  "waitTime rl = \<lceil>fl (fl (1 / refillRate rl) * 1000)\<rceil>"

text \<open>
  \<^verbatim>\<open>waitForSlot\<close>, called at time \<open>now\<close>. The result is the state when the returned promise
  resolves, and whether the caller was suspended. A suspended caller resumes when its timer
  fires, \<open>late\<close> milliseconds after the requested delay; no other call on the limiter runs
  in between.
\<close>

definition waitForSlot :: "rate_limiter \<Rightarrow> int \<Rightarrow> nat \<Rightarrow> rate_limiter \<times> bool" where
  "waitForSlot rl now late =
     (let rl1 = refill rl now in
      if tokens rl1 \<ge> 1 then (rl1\<lparr>tokens := tokens rl1 - 1\<rparr>, False)
      else
        let rl2 = refill rl1 (now + waitTime rl1 + int late)
        in (rl2\<lparr>tokens := tokens rl2 - 1\<rparr>, True))"

definition getRemaining :: "rate_limiter \<Rightarrow> int \<Rightarrow> rate_limiter \<times> real" where
  "getRemaining rl now = (let rl1 = refill rl now in (rl1, tokens rl1))"

text \<open>A sequence of calls on one limiter.\<close>

datatype rl_call = WaitForSlot int nat | Refill int | GetRemaining int

fun rl_step :: "rate_limiter \<Rightarrow> rl_call \<Rightarrow> rate_limiter" where
  "rl_step rl (WaitForSlot now late) = fst (waitForSlot rl now late)"
| "rl_step rl (Refill now) = refill rl now"
| "rl_step rl (GetRemaining now) = fst (getRemaining rl now)"

definition rl_run :: "rate_limiter \<Rightarrow> rl_call list \<Rightarrow> rate_limiter" where
  "rl_run rl calls = foldl rl_step rl calls"

section \<open>The batch entry point\<close>

text \<open>
  \<^verbatim>\<open>router.post('/batch', validateQuery, handler)\<close>: the middleware runs first and the
  handler only if the middleware calls \<^verbatim>\<open>next()\<close>. The request body is the object parsed
  from JSON, as the list of its properties (distinct names).
\<close>

datatype json =
    JNull
  | JBool bool
  | JNum real
  | JStr string
  | JArr "json list"
  | JObj "(string \<times> json) list"

type_synonym body = "(string \<times> json) list"

text \<open>\<^verbatim>\<open>!x\<close> for a property read from the body; a missing property is \<^verbatim>\<open>undefined\<close>.\<close>

fun falsy :: "json option \<Rightarrow> bool" where
  "falsy None = True"
| "falsy (Some JNull) = True"
| "falsy (Some (JBool b)) = (\<not> b)"
| "falsy (Some (JNum x)) = (x = 0)"
| "falsy (Some (JStr s)) = (s = [])"
| "falsy (Some (JArr xs)) = False"
| "falsy (Some (JObj ps)) = False"

datatype outcome =
    Response nat string
  | Next
  | ProcessBatch "json list" json

text \<open>
  \<^verbatim>\<open>validateQuery\<close>. The PII report it attaches to the request before \<^verbatim>\<open>next()\<close> is not
  read by the batch handler and is left out.
\<close>

definition validateQuery :: "body \<Rightarrow> outcome" where
  "validateQuery b =
     (let query = map_of b ''query'' in
      if falsy query then Response 400 ''Query is required''
      else case query of
        Some (JStr s) \<Rightarrow>
          if length s < 3 then Response 400 ''Query must be at least 3 characters''
          else if length s > 1000 then Response 400 ''Query too long (max 1000 characters)''
          else Next
      | _ \<Rightarrow> Response 400 ''Query must be a string'')"

text \<open>
  The handler of \<^verbatim>\<open>/batch\<close>. \<open>ProcessBatch queries options\<close> stands for the call
  \<^verbatim>\<open>orchestrator.processBatch(queries, options)\<close>, whose code is not part of the sources.
\<close>

definition batch_handler :: "body \<Rightarrow> outcome" where
  "batch_handler b =
     (let options = (case map_of b ''options'' of None \<Rightarrow> JObj [] | Some opts \<Rightarrow> opts) in
      case map_of b ''queries'' of
        Some (JArr queries) \<Rightarrow>
          if length queries = 0 then Response 400 ''Queries array is required''
          else if length queries > 100 then Response 400 ''Maximum 100 queries per batch''
          else ProcessBatch queries options
      | _ \<Rightarrow> Response 400 ''Queries array is required'')"

definition post_batch :: "body \<Rightarrow> outcome" where
  "post_batch b = (case validateQuery b of Next \<Rightarrow> batch_handler b | r \<Rightarrow> r)"

section \<open>Properties of the decision agent\<close>

subsection \<open>Searching\<close>

lemma search_from_here: "ends r (prev, s) \<noteq> [] \<Longrightarrow> search_from r prev s"
  by (cases s) simp_all

lemma search_from_append:
  "ends r (if pre = [] then prev else Some (last pre), s) \<noteq> []
     \<Longrightarrow> search_from r prev (pre @ s)"
proof (induction pre arbitrary: prev)
  case Nil
  then show ?case by (simp add: search_from_here)
next
  case (Cons c cs)
  then show ?case by (cases cs) (simp_all split: if_splits)
qed

lemma to_lower_NCT:
  "to_lower CHR ''N'' = CHR ''n''" "to_lower CHR ''C'' = CHR ''c''"
  "to_lower CHR ''T'' = CHR ''t''"
  by (simp_all add: to_lower_def is_upper_def)

lemma is_word_if_lowered: "to_lower c = x \<Longrightarrow> is_word x \<Longrightarrow> is_word c"
  by (auto simp: to_lower_def is_word_def split: if_splits)

lemma is_word_n: "is_word CHR ''n''"
  by (simp add: is_word_def is_lower_def)

subsection \<open>Trial-registry identifiers\<close>

lemma ends_nct:
  assumes "to_lower n = CHR ''n''" "to_lower c = CHR ''c''" "to_lower t = CHR ''t''"
    and "length ds = 8" and "\<forall>d\<in>set ds. is_digit d"
    and "\<not> word_before (prev, n # c # t # ds @ post)"
    and "post = [] \<or> \<not> is_word (hd post)"
  shows "ends nct (prev, n # c # t # ds @ post) \<noteq> []"
proof -
  obtain d1 d2 d3 d4 d5 d6 d7 d8 where ds: "ds = [d1, d2, d3, d4, d5, d6, d7, d8]"
    using \<open>length ds = 8\<close> by (auto simp: eval_nat_numeral length_Suc_conv)
  have wn: "is_word n"
    using assms(1) is_word_n by (rule is_word_if_lowered)
  have w8: "is_word d8"
    using assms(5) ds by (simp add: is_word_def)
  show ?thesis
    using assms(1-3,5-7) wn w8 unfolding ds
    by (cases post)
      (simp_all add: nct_def Bounded_def Str_def eval_nat_numeral eat_def to_lower_NCT
        word_before_def word_after_def)
qed

lemma test_nct:
  assumes "toLowerCase pfx = ''nct''"
    and "length ds = 8" and "\<forall>d\<in>set ds. is_digit d"
    and "pre = [] \<or> \<not> is_word (last pre)"
    and "post = [] \<or> \<not> is_word (hd post)"
  shows "test nct (pre @ pfx @ ds @ post)"
proof -
  obtain n c t where pfx: "pfx = [n, c, t]"
    and low: "to_lower n = CHR ''n''" "to_lower c = CHR ''c''" "to_lower t = CHR ''t''"
    using assms(1) by (auto simp: toLowerCase_def)
  have "\<not> word_before (if pre = [] then None else Some (last pre), n # c # t # ds @ post)"
    using assms(4) by (auto simp: word_before_def)
  then have "ends nct (if pre = [] then None else Some (last pre), n # c # t # ds @ post) \<noteq> []"
    using low assms(2,3,5) by (intro ends_nct)
  then show ?thesis
    unfolding test_def pfx
    using search_from_append[of nct pre None "[n, c, t] @ ds @ post"] by simp
qed

text \<open>
  C5. A query that contains a trial-registry identifier, that is, the letters NCT (in any
  case) followed by exactly eight digits, with no word character just before or just after
  it, is decided in the specific-identifier step whatever the surrounding text \<open>pre\<close> and
  \<open>post\<close> is: confidence 0.95, intent \<^verbatim>\<open>clinical_trial_lookup\<close>, sources
  \<^verbatim>\<open>['clinicaltrials', 'pubmed']\<close>.
\<close>

theorem decide_trial_registry_identifier:
  assumes "toLowerCase pfx = ''nct''"
    and "length ds = 8" and "\<forall>d\<in>set ds. is_digit d"
    and "pre = [] \<or> \<not> is_word (last pre)"
    and "post = [] \<or> \<not> is_word (hd post)"
  shows "decide (pre @ pfx @ ds @ post) =
           \<lparr>useDocuments = False, useExternal = True, documentQuery = [],
            externalSources = [''clinicaltrials'', ''pubmed''],
            intent = ''clinical_trial_lookup'', confidence = 95 / 100\<rparr>"
  using test_nct[OF assms]
  by (simp add: decide_def checkSpecificIdentifiers_def decision0_def)

text \<open>The query \<^verbatim>\<open>"NCT01234567 status"\<close> is an instance.\<close>

theorem decide_trial_registry_identifier_witness:
  "decide ''NCT01234567 status'' =
     \<lparr>useDocuments = False, useExternal = True, documentQuery = [],
      externalSources = [''clinicaltrials'', ''pubmed''],
      intent = ''clinical_trial_lookup'', confidence = 95 / 100\<rparr>"
proof -
  have 1: "toLowerCase ''NCT'' = ''nct''"
    by (simp add: toLowerCase_def to_lower_NCT)
  have 2: "length ''01234567'' = 8"
    by simp
  have 3: "\<forall>d\<in>set ''01234567''. is_digit d"
    by (simp add: is_digit_def)
  have 4: "[] = [] \<or> \<not> is_word (last [])"
    by simp
  have 5: "'' status'' = [] \<or> \<not> is_word (hd '' status'')"
    by (simp add: is_word_def is_upper_def is_lower_def is_digit_def)
  show ?thesis
    using decide_trial_registry_identifier[OF 1 2 3 4 5] by simp
qed

subsection \<open>The classification loop\<close>

lemma classify_step_simp:
  "classify_step q (bm, bs) e =
     (if raw_score q e > bs then (Some (match_of q e), raw_score q e) else (bm, bs))"
  by (cases e) (simp add: classify_step_def raw_score_def match_of_def Let_def)

lemma classify_loop_snoc:
  "classify_loop q (table @ [e]) = classify_step q (classify_loop q table) e"
  by (simp add: classify_loop_def)

lemma classify_loop_none:
  "fst (classify_loop q table) = None \<Longrightarrow>
     snd (classify_loop q table) = 0 \<and> (\<forall>e\<in>set table. raw_score q e \<le> 0)"
proof (induction table rule: rev_induct)
  case Nil
  then show ?case by (simp add: classify_loop_def)
next
  case (snoc e table)
  obtain bm bs where acc: "classify_loop q table = (bm, bs)"
    by (cases "classify_loop q table")
  from snoc.prems have no: "\<not> raw_score q e > bs" and "bm = None"
    by (auto simp: classify_loop_snoc acc classify_step_simp split: if_splits)
  with snoc.IH acc have "bs = 0" "\<forall>e\<in>set table. raw_score q e \<le> 0" by simp_all
  with no show ?case
    by (auto simp: classify_loop_snoc acc classify_step_simp)
qed

lemma classify_loop_some:
  "fst (classify_loop q table) = Some m \<Longrightarrow>
     \<exists>i<length table. m = match_of q (table ! i)
        \<and> snd (classify_loop q table) = raw_score q (table ! i)
        \<and> 0 < raw_score q (table ! i)
        \<and> (\<forall>j<length table. raw_score q (table ! j) \<le> raw_score q (table ! i))
        \<and> (\<forall>j<i. raw_score q (table ! j) < raw_score q (table ! i))"
proof (induction table arbitrary: m rule: rev_induct)
  case Nil
  then show ?case by (simp add: classify_loop_def)
next
  case (snoc e table)
  obtain bm bs where acc: "classify_loop q table = (bm, bs)"
    by (cases "classify_loop q table")
  show ?case
  proof (cases "raw_score q e > bs")
    case True
    then have m: "m = match_of q e" and res: "snd (classify_loop q (table @ [e])) = raw_score q e"
      using snoc.prems by (simp_all add: classify_loop_snoc acc classify_step_simp)
    have below: "(\<forall>j<length table. raw_score q (table ! j) \<le> bs) \<and> 0 \<le> bs"
    proof (cases bm)
      case None
      with classify_loop_none[of q table] acc have "bs = 0" "\<forall>e\<in>set table. raw_score q e \<le> 0"
        by simp_all
      then show ?thesis by simp
    next
      case (Some m')
      with snoc.IH[of m'] acc show ?thesis by fastforce
    qed
    have "length table < length (table @ [e])" by simp
    moreover have "m = match_of q ((table @ [e]) ! length table)" using m by simp
    moreover have "snd (classify_loop q (table @ [e])) = raw_score q ((table @ [e]) ! length table)"
      using res by simp
    moreover have "0 < raw_score q ((table @ [e]) ! length table)"
      using True below by (simp add: nth_append)
    moreover have "\<forall>j<length (table @ [e]). raw_score q ((table @ [e]) ! j) \<le> raw_score q ((table @ [e]) ! length table)"
      using True below by (auto simp: nth_append less_Suc_eq)
    moreover have "\<forall>j<length table. raw_score q ((table @ [e]) ! j) < raw_score q ((table @ [e]) ! length table)"
      using True below by (auto simp: nth_append)
    ultimately show ?thesis by blast
  next
    case False
    then have same: "classify_loop q (table @ [e]) = (bm, bs)"
      by (simp add: classify_loop_snoc acc classify_step_simp)
    with snoc.prems have bm: "bm = Some m" by simp
    from snoc.IH[of m] acc bm obtain i where i: "i < length table" "m = match_of q (table ! i)"
      "bs = raw_score q (table ! i)" "0 < raw_score q (table ! i)"
      "\<forall>j<length table. raw_score q (table ! j) \<le> raw_score q (table ! i)"
      "\<forall>j<i. raw_score q (table ! j) < raw_score q (table ! i)"
      by auto
    have "i < length (table @ [e])" using i(1) by simp
    moreover have "m = match_of q ((table @ [e]) ! i)" using i by (simp add: nth_append)
    moreover have "snd (classify_loop q (table @ [e])) = raw_score q ((table @ [e]) ! i)"
      using i same by (simp add: nth_append)
    moreover have "0 < raw_score q ((table @ [e]) ! i)" using i by (simp add: nth_append)
    moreover have "\<forall>j<length (table @ [e]). raw_score q ((table @ [e]) ! j) \<le> raw_score q ((table @ [e]) ! i)"
      using i False by (auto simp: nth_append less_Suc_eq)
    moreover have "\<forall>j<i. raw_score q ((table @ [e]) ! j) < raw_score q ((table @ [e]) ! i)"
      using i by (auto simp: nth_append)
    ultimately show ?thesis by blast
  qed
qed

lemma classifyDomain_cases:
  "classifyDomain q =
     (case fst (classify_loop q domains) of
        Some m \<Rightarrow> if snd (classify_loop q domains) > 3 / 10 then m else no_match
      | None \<Rightarrow> no_match)"
  by (simp add: classifyDomain_def no_match_def split: prod.splits option.splits)

lemma classifyDomain_char:
  "(dm_domain (classifyDomain q) = None \<longrightarrow>
      classifyDomain q = \<lparr>dm_domain = None, dm_sources = [], dm_confidence = 0\<rparr>
      \<and> (\<forall>e\<in>set domains. raw_score q e \<le> 3 / 10))
   \<and> (\<forall>d. dm_domain (classifyDomain q) = Some d \<longrightarrow>
      (\<exists>i<length domains.
          fst (domains ! i) = d
        \<and> classifyDomain q =
            \<lparr>dm_domain = Some d, dm_sources = dc_sources (snd (domains ! i)),
             dm_confidence = dc_confidence (snd (domains ! i)) * raw_score q (domains ! i)\<rparr>
        \<and> 3 / 10 < raw_score q (domains ! i)
        \<and> (\<forall>j<length domains. raw_score q (domains ! j) \<le> raw_score q (domains ! i))
        \<and> (\<forall>j<i. raw_score q (domains ! j) < raw_score q (domains ! i))))"
proof (cases "fst (classify_loop q domains)")
  case None
  then have "classifyDomain q = no_match"
    by (simp add: classifyDomain_cases)
  moreover have "\<forall>e\<in>set domains. raw_score q e \<le> 3 / 10"
    using classify_loop_none[OF None] by fastforce
  ultimately show ?thesis
    by (simp add: no_match_def)
next
  case (Some m)
  from classify_loop_some[OF Some] obtain i where i: "i < length domains"
    "m = match_of q (domains ! i)"
    "snd (classify_loop q domains) = raw_score q (domains ! i)"
    "\<forall>j<length domains. raw_score q (domains ! j) \<le> raw_score q (domains ! i)"
    "\<forall>j<i. raw_score q (domains ! j) < raw_score q (domains ! i)"
    by blast
  show ?thesis
  proof (cases "snd (classify_loop q domains) > 3 / 10")
    case True
    then have "classifyDomain q = match_of q (domains ! i)"
      using Some i(2) by (simp add: classifyDomain_cases)
    then show ?thesis
      using i True by (auto simp: match_of_def)
  next
    case False
    then have "classifyDomain q = no_match"
      using Some by (simp add: classifyDomain_cases)
    moreover have "\<forall>e\<in>set domains. raw_score q e \<le> 3 / 10"
      using False i(3,4) by (fastforce simp: in_set_conv_nth)
    ultimately show ?thesis
      by (simp add: no_match_def)
  qed
qed

lemma domain_fields:
  "dc_sources clinicalTrial = [''clinicaltrials'', ''pubmed'']"
  "dc_confidence clinicalTrial = 85 / 100"
  "dc_sources drugSafety = [''openfda'', ''pubmed'']"
  "dc_confidence drugSafety = 9 / 10"
  "dc_sources drugInfo = [''openfda'', ''pubmed'', ''clinicaltrials'']"
  "dc_confidence drugInfo = 8 / 10"
  "dc_sources literatureReview = [''pubmed'']"
  "dc_confidence literatureReview = 75 / 100"
  by (simp_all add: clinicalTrial_def drugSafety_def drugInfo_def literatureReview_def)


lemma decide_eval:
  "decide q =
    (if test nct q then
       \<lparr>useDocuments = False, useExternal = True, documentQuery = [],
        externalSources = [''clinicaltrials'', ''pubmed''],
        intent = ''clinical_trial_lookup'', confidence = 95 / 100\<rparr>
     else if test pmid q then
       \<lparr>useDocuments = False, useExternal = True, documentQuery = [],
        externalSources = [''pubmed''], intent = ''literature_lookup'', confidence = 95 / 100\<rparr>
     else case dm_domain (classifyDomain q) of
       Some d \<Rightarrow>
         \<lparr>useDocuments = False, useExternal = True, documentQuery = [],
          externalSources = dm_sources (classifyDomain q), intent = d,
          confidence = dm_confidence (classifyDomain q)\<rparr>
     | None \<Rightarrow>
         \<lparr>useDocuments = False, useExternal = True, documentQuery = [],
          externalSources = [''pubmed''], intent = ''general_medical'',
          confidence = 6 / 10\<rparr>)"
  by (simp add: decide_def checkSpecificIdentifiers_def decision0_def Let_def
      split: option.splits)

lemma classifyDomain_eval:
  "classifyDomain q =
     (case fst (foldl (classify_step q) (None, 0) domains) of
        Some m \<Rightarrow> if snd (foldl (classify_step q) (None, 0) domains) > 3 / 10 then m else no_match
      | None \<Rightarrow> no_match)"
  unfolding classifyDomain_cases classify_loop_def ..

lemmas classify_eval = classifyDomain_eval domains_def classify_step_simp match_of_def
  domain_fields no_match_def

subsection \<open>Evaluated queries\<close>

lemma raw_placebo:
  "raw_score ''placebo safety'' (''clinicalTrial'', clinicalTrial) = 4 / 10"
  "raw_score ''placebo safety'' (''drugSafety'', drugSafety) = 4 / 10"
  "raw_score ''placebo safety'' (''drugInfo'', drugInfo) = 0"
  "raw_score ''placebo safety'' (''literatureReview'', literatureReview) = 0"
  by code_simp+

lemma no_identifier_placebo:
  "\<not> test nct ''placebo safety''" "\<not> test pmid ''placebo safety''"
  "\<not> test doi ''placebo safety''" "\<not> test fda ''placebo safety''"
  by code_simp+

lemma classify_placebo:
  "classifyDomain ''placebo safety'' =
     \<lparr>dm_domain = Some ''clinicalTrial'', dm_sources = [''clinicaltrials'', ''pubmed''],
      dm_confidence = 34 / 100\<rparr>"
  by (simp add: classifyDomain_cases classify_loop_def domains_def classify_step_simp
      raw_placebo match_of_def domain_fields)

lemma spec_placebo: "spec_classifyDomain ''placebo safety'' = Some ''drugSafety''"
  by (simp add: spec_classifyDomain_def domains_def raw_placebo combined_score_def
      domain_fields)

lemma plural_tests:
  "\<not> test nct ''What are the side effects of ibuprofen?''"
  "\<not> test pmid ''What are the side effects of ibuprofen?''"
  by code_simp+

lemma plural_raw:
  "raw_score ''What are the side effects of ibuprofen?'' (''clinicalTrial'', clinicalTrial) = 0"
  "raw_score ''What are the side effects of ibuprofen?'' (''drugSafety'', drugSafety) = 0"
  "raw_score ''What are the side effects of ibuprofen?'' (''drugInfo'', drugInfo) = 0"
  "raw_score ''What are the side effects of ibuprofen?''
     (''literatureReview'', literatureReview) = 0"
  by code_simp+

lemma decide_plural:
  "decide ''What are the side effects of ibuprofen?'' =
     \<lparr>useDocuments = False, useExternal = True, documentQuery = [],
      externalSources = [''pubmed''], intent = ''general_medical'', confidence = 6 / 10\<rparr>"
  by (simp add: decide_eval plural_tests classify_eval plural_raw)

lemma singular_tests:
  "\<not> test nct ''What is a side effect of ibuprofen?''"
  "\<not> test pmid ''What is a side effect of ibuprofen?''"
  by code_simp+

lemma singular_raw:
  "raw_score ''What is a side effect of ibuprofen?'' (''clinicalTrial'', clinicalTrial) = 0"
  "raw_score ''What is a side effect of ibuprofen?'' (''drugSafety'', drugSafety) = 4 / 10"
  "raw_score ''What is a side effect of ibuprofen?'' (''drugInfo'', drugInfo) = 0"
  "raw_score ''What is a side effect of ibuprofen?''
     (''literatureReview'', literatureReview) = 0"
  by code_simp+

lemma decide_singular:
  "decide ''What is a side effect of ibuprofen?'' =
     \<lparr>useDocuments = False, useExternal = True, documentQuery = [],
      externalSources = [''openfda'', ''pubmed''], intent = ''drugSafety'',
      confidence = 36 / 100\<rparr>"
  by (simp add: decide_eval singular_tests classify_eval singular_raw)

lemma hello_tests:
  "\<not> test nct ''hello world''" "\<not> test pmid ''hello world''"
  by code_simp+

lemma hello_raw:
  "raw_score ''hello world'' (''clinicalTrial'', clinicalTrial) = 0"
  "raw_score ''hello world'' (''drugSafety'', drugSafety) = 0"
  "raw_score ''hello world'' (''drugInfo'', drugInfo) = 0"
  "raw_score ''hello world'' (''literatureReview'', literatureReview) = 0"
  by code_simp+

lemma fda_doi_tests:
  "test fda ''NDA 021436''" "\<not> test nct ''NDA 021436''" "\<not> test pmid ''NDA 021436''"
  "test doi ''10.1000/xyz123''" "\<not> test nct ''10.1000/xyz123''"
  "\<not> test pmid ''10.1000/xyz123''"
  by code_simp+

lemma fda_doi_raw:
  "raw_score ''NDA 021436'' (''clinicalTrial'', clinicalTrial) = 0"
  "raw_score ''NDA 021436'' (''drugSafety'', drugSafety) = 0"
  "raw_score ''NDA 021436'' (''drugInfo'', drugInfo) = 0"
  "raw_score ''NDA 021436'' (''literatureReview'', literatureReview) = 0"
  "raw_score ''10.1000/xyz123'' (''clinicalTrial'', clinicalTrial) = 0"
  "raw_score ''10.1000/xyz123'' (''drugSafety'', drugSafety) = 0"
  "raw_score ''10.1000/xyz123'' (''drugInfo'', drugInfo) = 0"
  "raw_score ''10.1000/xyz123'' (''literatureReview'', literatureReview) = 0"
  by code_simp+

subsection \<open>Domain classification\<close>

text \<open>
  C3, as the specification states it, fails: the loop of \<open>classifyDomain\<close> compares raw
  scores, not products. The query \<^verbatim>\<open>"placebo safety"\<close> holds no identifier; the clinical-trial and the
  drug-safety domain both have the raw score 0.4; the product of drug-safety (0.36) is
  greater than that of clinical-trial (0.34), which the specification's rule selects, and
  \<open>classifyDomain\<close> returns clinical-trial.
\<close>

theorem classifyDomain_max_combined_counterexample:
  "\<not> test nct ''placebo safety'' \<and> \<not> test pmid ''placebo safety''
   \<and> \<not> test doi ''placebo safety'' \<and> \<not> test fda ''placebo safety''
   \<and> dm_domain (classifyDomain ''placebo safety'') = Some ''clinicalTrial''
   \<and> 3 / 10 < raw_score ''placebo safety'' (''drugSafety'', drugSafety)
   \<and> combined_score ''placebo safety'' (''clinicalTrial'', clinicalTrial)
       < combined_score ''placebo safety'' (''drugSafety'', drugSafety)
   \<and> spec_classifyDomain ''placebo safety'' = Some ''drugSafety''
   \<and> dm_domain (classifyDomain ''placebo safety'') \<noteq> spec_classifyDomain ''placebo safety''"
  by (simp add: no_identifier_placebo classify_placebo spec_placebo raw_placebo
      combined_score_def domain_fields)

text \<open>
  C3, amended. For every query, \<open>classifyDomain\<close> returns the domain with the greatest raw
  score, the first such domain in the order of the table, provided that raw score exceeds
  0.3; the confidence it reports is the base confidence of that domain times the raw score,
  and the sources are those of the domain. When no raw score exceeds 0.3 it returns no
  domain.
\<close>

theorem classifyDomain_first_max_raw_score:
  "(dm_domain (classifyDomain q) = None \<longrightarrow>
      classifyDomain q = \<lparr>dm_domain = None, dm_sources = [], dm_confidence = 0\<rparr>
      \<and> (\<forall>e\<in>set domains. raw_score q e \<le> 3 / 10))
   \<and> (\<forall>d. dm_domain (classifyDomain q) = Some d \<longrightarrow>
      (\<exists>i<length domains.
          fst (domains ! i) = d
        \<and> classifyDomain q =
            \<lparr>dm_domain = Some d, dm_sources = dc_sources (snd (domains ! i)),
             dm_confidence = dc_confidence (snd (domains ! i)) * raw_score q (domains ! i)\<rparr>
        \<and> 3 / 10 < raw_score q (domains ! i)
        \<and> (\<forall>j<length domains. raw_score q (domains ! j) \<le> raw_score q (domains ! i))
        \<and> (\<forall>j<i. raw_score q (domains ! j) < raw_score q (domains ! i))))"
  by (rule classifyDomain_char)

theorem classifyDomain_first_max_raw_score_witness:
  "(classifyDomain ''hello world'' = \<lparr>dm_domain = None, dm_sources = [], dm_confidence = 0\<rparr>
     \<and> list_all (\<lambda>e. raw_score ''hello world'' e \<le> 3 / 10) domains)
   \<and> (\<exists>i<length domains.
          fst (domains ! i) = ''clinicalTrial''
        \<and> classifyDomain ''placebo safety'' =
            \<lparr>dm_domain = Some ''clinicalTrial'', dm_sources = dc_sources (snd (domains ! i)),
             dm_confidence =
               dc_confidence (snd (domains ! i)) * raw_score ''placebo safety'' (domains ! i)\<rparr>
        \<and> 3 / 10 < raw_score ''placebo safety'' (domains ! i)
        \<and> list_all (\<lambda>e. raw_score ''placebo safety'' e
                           \<le> raw_score ''placebo safety'' (domains ! i)) domains
        \<and> list_all (\<lambda>e. raw_score ''placebo safety'' e
                           < raw_score ''placebo safety'' (domains ! i)) (take i domains))"
proof -
  have none: "dm_domain (classifyDomain ''hello world'') = None"
    by (simp add: classify_eval hello_raw)
  have some: "dm_domain (classifyDomain ''placebo safety'') = Some ''clinicalTrial''"
    by (simp add: classify_placebo)
  from classifyDomain_first_max_raw_score[of "''hello world''"] none
  have 1: "classifyDomain ''hello world'' = \<lparr>dm_domain = None, dm_sources = [], dm_confidence = 0\<rparr>
     \<and> list_all (\<lambda>e. raw_score ''hello world'' e \<le> 3 / 10) domains"
    by (simp add: list_all_iff)
  from classifyDomain_first_max_raw_score[of "''placebo safety''"] some
  obtain i where i: "i < length domains" "fst (domains ! i) = ''clinicalTrial''"
    "classifyDomain ''placebo safety'' =
            \<lparr>dm_domain = Some ''clinicalTrial'', dm_sources = dc_sources (snd (domains ! i)),
             dm_confidence =
               dc_confidence (snd (domains ! i)) * raw_score ''placebo safety'' (domains ! i)\<rparr>"
    "3 / 10 < raw_score ''placebo safety'' (domains ! i)"
    "\<forall>j<length domains. raw_score ''placebo safety'' (domains ! j)
         \<le> raw_score ''placebo safety'' (domains ! i)"
    "\<forall>j<i. raw_score ''placebo safety'' (domains ! j)
         < raw_score ''placebo safety'' (domains ! i)"
    by blast
  have "list_all (\<lambda>e. raw_score ''placebo safety'' e
                           \<le> raw_score ''placebo safety'' (domains ! i)) domains"
    using i(5) by (simp add: list_all_length)
  moreover have "list_all (\<lambda>e. raw_score ''placebo safety'' e
                           < raw_score ''placebo safety'' (domains ! i)) (take i domains)"
    using i(1,6) by (simp add: list_all_length)
  ultimately show ?thesis
    using 1 i(1-4) by blast
qed

subsection \<open>The drug-safety scenario\<close>

text \<open>
  C2, as the specification states it, fails: in \<^verbatim>\<open>"What are the side effects of ibuprofen?"\<close>
  the alternative \<^verbatim>\<open>side effect\<close> is followed by the letter s, so the closing \<^verbatim>\<open>\b\<close> of the
  pattern does not hold; no pattern of any domain occurs, and \<open>decide\<close> does not return the
  drug-safety decision.
\<close>

theorem decide_side_effects_counterexample:
  "\<not> (intent (decide ''What are the side effects of ibuprofen?'') = ''drugSafety''
      \<and> externalSources (decide ''What are the side effects of ibuprofen?'') =
          [''openfda'', ''pubmed'']
      \<and> confidence (decide ''What are the side effects of ibuprofen?'') =
          9 / 10 * raw_score ''What are the side effects of ibuprofen?''
                     (''drugSafety'', drugSafety))"
  by (simp add: decide_plural)

text \<open>
  C2, amended. For the query \<^verbatim>\<open>"What are the side effects of ibuprofen?"\<close> the drug-safety
  pattern score is 0 and \<open>decide\<close> returns the fallback decision (intent
  \<^verbatim>\<open>general_medical\<close>, sources \<^verbatim>\<open>['pubmed']\<close>, confidence 0.6). For the query
  \<^verbatim>\<open>"What is a side effect of ibuprofen?"\<close> \<open>decide\<close> returns the drug-safety domain, sources
  \<^verbatim>\<open>['openfda', 'pubmed']\<close>, and the confidence 0.9 times the pattern score, which is 0.4.
\<close>

theorem decide_side_effect_queries:
  "decide ''What are the side effects of ibuprofen?'' =
     \<lparr>useDocuments = False, useExternal = True, documentQuery = [],
      externalSources = [''pubmed''], intent = ''general_medical'', confidence = 6 / 10\<rparr>
   \<and> raw_score ''What are the side effects of ibuprofen?'' (''drugSafety'', drugSafety) = 0
   \<and> decide ''What is a side effect of ibuprofen?'' =
     \<lparr>useDocuments = False, useExternal = True, documentQuery = [],
      externalSources = [''openfda'', ''pubmed''], intent = ''drugSafety'',
      confidence = 9 / 10 * raw_score ''What is a side effect of ibuprofen?''
                              (''drugSafety'', drugSafety)\<rparr>
   \<and> raw_score ''What is a side effect of ibuprofen?'' (''drugSafety'', drugSafety) = 4 / 10"
  by (simp add: decide_plural plural_raw decide_singular singular_raw)

subsection \<open>The fallback\<close>

text \<open>
  C6. A query in which \<open>checkSpecificIdentifiers\<close> finds no identifier and whose raw score
  is at most 0.3 for every domain of the table gets the fallback decision: intent
  \<^verbatim>\<open>general_medical\<close>, confidence 0.6, sources \<^verbatim>\<open>['pubmed']\<close>.
\<close>

theorem decide_fallback:
  assumes "\<not> sm_found (checkSpecificIdentifiers q)"
    and "\<forall>e\<in>set domains. raw_score q e \<le> 3 / 10"
  shows "decide q =
           \<lparr>useDocuments = False, useExternal = True, documentQuery = [],
            externalSources = [''pubmed''], intent = ''general_medical'',
            confidence = 6 / 10\<rparr>"
proof -
  have "dm_domain (classifyDomain q) = None"
  proof (cases "dm_domain (classifyDomain q)")
    case (Some d)
    with classifyDomain_char[of q] obtain i where
      i: "i < length domains" "3 / 10 < raw_score q (domains ! i)" by blast
    then have "domains ! i \<in> set domains" by simp
    with assms(2) have "raw_score q (domains ! i) \<le> 3 / 10" by blast
    with i(2) show ?thesis by simp
  qed simp
  with assms(1) show ?thesis
    by (simp add: decide_def decision0_def)
qed

theorem decide_fallback_witness:
  "decide ''hello world'' =
     \<lparr>useDocuments = False, useExternal = True, documentQuery = [],
      externalSources = [''pubmed''], intent = ''general_medical'', confidence = 6 / 10\<rparr>"
proof -
  have 1: "\<not> sm_found (checkSpecificIdentifiers ''hello world'')"
    by (simp add: checkSpecificIdentifiers_def hello_tests)
  have 2: "\<forall>e\<in>set domains. raw_score ''hello world'' e \<le> 3 / 10"
    by (simp add: domains_def hello_raw)
  show ?thesis
    using decide_fallback[OF 1 2] .
qed

subsection \<open>DOIs and FDA application numbers\<close>

text \<open>
  C4. The patterns \<open>doi\<close> and \<open>fda\<close> are declared with the specific identifiers, but
  \<open>checkSpecificIdentifiers\<close> never consults them: the queries \<^verbatim>\<open>"NDA 021436"\<close> and
  \<^verbatim>\<open>"10.1000/xyz123"\<close> contain an FDA application number and a DOI, no identifier is
  found, and \<open>decide\<close> falls through to the fallback with confidence 0.6.
\<close>

theorem decide_ignores_doi_and_fda_numbers:
  "test fda ''NDA 021436''
   \<and> sm_found (checkSpecificIdentifiers ''NDA 021436'') = False
   \<and> decide ''NDA 021436'' =
       \<lparr>useDocuments = False, useExternal = True, documentQuery = [],
        externalSources = [''pubmed''], intent = ''general_medical'', confidence = 6 / 10\<rparr>
   \<and> test doi ''10.1000/xyz123''
   \<and> sm_found (checkSpecificIdentifiers ''10.1000/xyz123'') = False
   \<and> decide ''10.1000/xyz123'' =
       \<lparr>useDocuments = False, useExternal = True, documentQuery = [],
        externalSources = [''pubmed''], intent = ''general_medical'', confidence = 6 / 10\<rparr>"
  by (simp add: fda_doi_tests checkSpecificIdentifiers_def decide_eval classify_eval fda_doi_raw)

section \<open>Properties of the cache manager\<close>

subsection \<open>The map operations\<close>

lemma map_get_map_set: "map_get (map_set m k e) k = Some e"
  by (induction m) (auto simp: map_get_def)

lemma length_map_set: "length (map_set m k e) \<le> Suc (length m)"
  by (induction m) auto

lemma keys_map_set: "fst ` set (map_set m k e) = insert k (fst ` set m)"
proof (induction m)
  case Nil
  then show ?case by simp
next
  case (Cons a m)
  obtain k' e' where a: "a = (k', e')" by (cases a)
  show ?case
  proof (cases "k' = k")
    case True
    then show ?thesis by (simp add: a)
  next
    case False
    then show ?thesis using Cons.IH by (simp add: a insert_commute)
  qed
qed

lemma distinct_map_set: "distinct (map fst m) \<Longrightarrow> distinct (map fst (map_set m k e))"
proof (induction m)
  case Nil
  then show ?case by simp
next
  case (Cons a m)
  obtain k' e' where a: "a = (k', e')" by (cases a)
  show ?case
  proof (cases "k' = k")
    case True
    then show ?thesis using Cons.prems by (simp add: a)
  next
    case False
    then show ?thesis using Cons keys_map_set[of m k e] by (simp add: a)
  qed
qed

lemma map_delete_first:
  assumes "distinct (map fst ((k0, e0) # rest))"
  shows "map_delete ((k0, e0) # rest) k0 = rest"
proof -
  have "\<forall>x\<in>set rest. fst x \<noteq> k0"
    using assms by (auto simp: image_iff)
  then have "filter (\<lambda>e. fst e \<noteq> k0) rest = rest"
    by (simp add: filter_id_conv)
  then show ?thesis
    by (simp add: map_delete_def)
qed

lemma k0_fresh:
  "distinct (map fst ((k0, e0) # rest)) \<Longrightarrow> k0 \<notin> fst ` set rest"
  by simp

lemma length_map_delete_first: "length (map_delete (x # rest) (fst x)) \<le> length rest"
  by (simp add: map_delete_def)

lemma distinct_map_delete: "distinct (map fst m) \<Longrightarrow> distinct (map fst (map_delete m k))"
  by (simp add: map_delete_def distinct_map_filter)

lemma setMemoryCache_memory:
  "memoryCache (setMemoryCache c k v ttl now) =
     map_set (if length (memoryCache c) \<ge> maxMemoryItems c
              then (case first_key (memoryCache c) of
                      Some oldestKey \<Rightarrow> map_delete (memoryCache c) oldestKey
                    | None \<Rightarrow> memoryCache c)
              else memoryCache c) k \<lparr>data = v, expiry = now + ttl * 1000\<rparr>"
  by (simp add: setMemoryCache_def Let_def)

lemma setMemoryCache_size:
  assumes "length (memoryCache c) \<le> maxMemoryItems c" and "0 < maxMemoryItems c"
  shows "length (memoryCache (setMemoryCache c k v ttl now)) \<le> maxMemoryItems c"
proof (cases "length (memoryCache c) \<ge> maxMemoryItems c")
  case True
  with assms obtain x rest where m: "memoryCache c = x # rest"
    by (cases "memoryCache c") auto
  have "length (map_delete (x # rest) (fst x)) \<le> length rest"
    by (rule length_map_delete_first)
  moreover have "length (map_set (map_delete (x # rest) (fst x)) k
                    \<lparr>data = v, expiry = now + ttl * 1000\<rparr>)
                 \<le> Suc (length (map_delete (x # rest) (fst x)))"
    by (rule length_map_set)
  ultimately have "length (map_set (map_delete (x # rest) (fst x)) k
                    \<lparr>data = v, expiry = now + ttl * 1000\<rparr>) \<le> Suc (length rest)"
    by linarith
  with True assms m show ?thesis
    by (simp add: setMemoryCache_memory first_key_def)
next
  case False
  have "length (map_set (memoryCache c) k \<lparr>data = v, expiry = now + ttl * 1000\<rparr>)
          \<le> Suc (length (memoryCache c))"
    by (rule length_map_set)
  with False show ?thesis
    by (simp add: setMemoryCache_memory)
qed

lemma setMemoryCache_wf:
  assumes "map_wf (memoryCache c)"
  shows "map_wf (memoryCache (setMemoryCache c k v ttl now))"
proof -
  have "distinct (map fst (if length (memoryCache c) \<ge> maxMemoryItems c
              then (case first_key (memoryCache c) of
                      Some oldestKey \<Rightarrow> map_delete (memoryCache c) oldestKey
                    | None \<Rightarrow> memoryCache c)
              else memoryCache c))"
    using assms by (simp add: map_wf_def distinct_map_delete split: option.splits)
  then show ?thesis
    unfolding map_wf_def setMemoryCache_memory by (rule distinct_map_set)
qed

lemma setMemoryCache_evicts:
  assumes "map_wf (memoryCache c)" and "length (memoryCache c) \<ge> maxMemoryItems c"
    and "memoryCache c = (k0, e0) # rest"
  shows "memoryCache (setMemoryCache c k v ttl now) =
           map_set rest k \<lparr>data = v, expiry = now + ttl * 1000\<rparr>"
proof -
  have "map_delete ((k0, e0) # rest) k0 = rest"
    using assms(1,3) by (intro map_delete_first) (simp add: map_wf_def)
  with assms(2,3) show ?thesis
    by (simp add: setMemoryCache_memory first_key_def)
qed

lemma set_cache_memory:
  "memoryCache (set_cache c key v ttl_arg now) =
     memoryCache (setMemoryCache c (generateKey key) v
        (case ttl_arg of None \<Rightarrow> defaultTTL c | Some t \<Rightarrow> t) now)"
  by (simp add: set_cache_def setMemoryCache_def Let_def split: option.splits)

lemma set_cache_max: "maxMemoryItems (set_cache c key v ttl_arg now) = maxMemoryItems c"
  by (simp add: set_cache_def setMemoryCache_def Let_def split: option.splits)

lemma run_sets_inv:
  assumes "length (memoryCache c) \<le> maxMemoryItems c" and "0 < maxMemoryItems c"
    and "map_wf (memoryCache c)"
  shows "length (memoryCache (run_sets c calls)) \<le> maxMemoryItems c
     \<and> maxMemoryItems (run_sets c calls) = maxMemoryItems c
     \<and> map_wf (memoryCache (run_sets c calls))"
  using assms
proof (induction c calls rule: run_sets.induct)
  case (1 c)
  then show ?case by simp
next
  case (2 c key v ttl_arg now calls)
  let ?c' = "set_cache c key v ttl_arg now"
  have a: "length (memoryCache ?c') \<le> maxMemoryItems ?c'"
    using setMemoryCache_size[OF "2.prems"(1,2)] by (simp add: set_cache_memory set_cache_max)
  have b: "0 < maxMemoryItems ?c'"
    using "2.prems"(2) by (simp add: set_cache_max)
  have c: "map_wf (memoryCache ?c')"
    using setMemoryCache_wf[OF "2.prems"(3)] by (simp add: set_cache_memory)
  from "2.IH"[OF a b c] show ?case
    by (simp add: set_cache_max)
qed

lemma get_after_set:
  assumes "redisClient c = None"
  shows "get (set_cache c k v (Some ttl) t0) k t1 = (if t1 < t0 + ttl * 1000 then Some v else None)"
  using assms
  by (simp add: get_def set_cache_def setMemoryCache_def Let_def map_get_map_set)

lemma get_unexpired:
  assumes "redisClient c = None" and "get c k now = Some v"
  shows "\<exists>e. map_get (memoryCache c) (generateKey k) = Some e \<and> data e = v \<and> now < expiry e"
  using assms by (auto simp: get_def Let_def split: option.splits if_splits)

lemma set_cache_redis: "redisClient c = None \<Longrightarrow> redisClient (set_cache c k v ttl_arg now) = None"
  by (simp add: set_cache_def setMemoryCache_def Let_def)

lemma fresh_cache_inv:
  "length (memoryCache (CacheManager :: 'v cache_manager))
     \<le> maxMemoryItems (CacheManager :: 'v cache_manager)"
  "0 < maxMemoryItems (CacheManager :: 'v cache_manager)"
  "map_wf (memoryCache (CacheManager :: 'v cache_manager))"
  "maxMemoryItems (CacheManager :: 'v cache_manager) = 1000"
  by (simp_all add: CacheManager_def map_wf_def)

lemma run_sets_bounded:
  "length (memoryCache (run_sets CacheManager calls)) \<le> 1000"
  using run_sets_inv[OF fresh_cache_inv(1-3), of calls] by (simp add: fresh_cache_inv(4))

lemma full_cache_wf: "map_wf (memoryCache full_cache)"
  by (simp add: full_cache_def map_wf_def distinct_map comp_def inj_on_def)

lemma full_cache_size: "length (memoryCache full_cache) = 1000" "maxMemoryItems full_cache = 1000"
  by (simp_all add: full_cache_def)

lemma full_cache_first:
  "memoryCache full_cache =
     (''k'', \<lparr>data = 0, expiry = 0\<rparr>)
       # map (\<lambda>i. (replicate (Suc i) CHR ''k'', \<lparr>data = i, expiry = 0\<rparr>)) [1..<1000]"
  by (simp add: full_cache_def upt_rec[of 0 1000])

subsection \<open>Round trip\<close>

text \<open>
  C7. With the durable tier disabled (\<^verbatim>\<open>redisClient\<close> is \<^verbatim>\<open>null\<close>), whatever the in-process
  tier holds: after \<^verbatim>\<open>set(k, v, ttl)\<close> at time \<open>t0\<close>, \<^verbatim>\<open>get(k)\<close> returns \<open>v\<close> while fewer than
  \<open>ttl\<close> seconds (\<open>ttl * 1000\<close> milliseconds) have elapsed, and \<^verbatim>\<open>null\<close> once \<open>ttl\<close> seconds or more
  have elapsed. The positivity of \<open>ttl\<close> is not needed. In general, a value that \<^verbatim>\<open>get\<close>
  returns is the data of an entry whose expiry instant lies after the time of the call.
\<close>

theorem set_then_get:
  assumes "redisClient c = None"
  shows "(elapsed < ttl * 1000 \<longrightarrow>
            get (set_cache c k v (Some ttl) t0) k (t0 + elapsed) = Some v)
       \<and> (ttl * 1000 \<le> elapsed \<longrightarrow>
            get (set_cache c k v (Some ttl) t0) k (t0 + elapsed) = None)
       \<and> (get c k' now = Some v' \<longrightarrow>
            (\<exists>e. map_get (memoryCache c) (generateKey k') = Some e \<and> data e = v'
                 \<and> now < expiry e))"
  using assms get_unexpired[of c k' now v'] by (simp add: get_after_set)

theorem set_then_get_witness:
  "get (set_cache CacheManager ''aspirin'' (7::nat) (Some 60) 1000) ''aspirin'' 60999 = Some 7
   \<and> get (set_cache CacheManager ''aspirin'' (7::nat) (Some 60) 1000) ''aspirin'' 61000 = None
   \<and> (\<exists>e. map_get (memoryCache (set_cache CacheManager ''aspirin'' (7::nat) (Some 60) 1000))
              (generateKey ''aspirin'') = Some e \<and> data e = 7 \<and> 60999 < expiry e)"
proof -
  have 1: "redisClient (CacheManager :: nat cache_manager) = None"
    by (simp add: CacheManager_def)
  have 2: "redisClient (set_cache (CacheManager :: nat cache_manager) ''aspirin'' 7 (Some 60) 1000)
             = None"
    using 1 by (rule set_cache_redis)
  have a: "get (set_cache CacheManager ''aspirin'' (7::nat) (Some 60) 1000) ''aspirin'' 60999
             = Some 7"
    using set_then_get[OF 1, of 59999 60 "''aspirin''" 7 1000] by simp
  have b: "get (set_cache CacheManager ''aspirin'' (7::nat) (Some 60) 1000) ''aspirin'' 61000
             = None"
    using set_then_get[OF 1, of 60000 60 "''aspirin''" 7 1000] by simp
  have c: "\<exists>e. map_get (memoryCache (set_cache CacheManager ''aspirin'' (7::nat) (Some 60) 1000))
              (generateKey ''aspirin'') = Some e \<and> data e = 7 \<and> 60999 < expiry e"
    using set_then_get[OF 2, of _ _ _ _ _ "''aspirin''" 60999 7] a by blast
  show ?thesis
    using a b c by blast
qed

subsection \<open>Capacity\<close>

text \<open>
  C8. The in-process tier of a cache manager never holds more than 1000 entries, whatever
  \<^verbatim>\<open>set\<close> calls follow its construction; every \<^verbatim>\<open>setMemoryCache\<close> keeps the size within
  \<^verbatim>\<open>maxMemoryItems\<close>; and when the tier is full at insertion time, the entry under the
  first key of the map is removed, only that entry, and the new entry is then set in what
  remains.
\<close>

theorem memory_tier_bounded:
  "length (memoryCache (run_sets CacheManager calls)) \<le> 1000
   \<and> (length (memoryCache c) \<le> maxMemoryItems c \<and> 0 < maxMemoryItems c \<longrightarrow>
        length (memoryCache (setMemoryCache c k v ttl now)) \<le> maxMemoryItems c)
   \<and> (map_wf (memoryCache c) \<and> length (memoryCache c) \<ge> maxMemoryItems c
        \<and> memoryCache c = (k0, e0) # rest \<longrightarrow>
        k0 \<notin> fst ` set rest
        \<and> memoryCache (setMemoryCache c k v ttl now) =
            map_set rest k \<lparr>data = v, expiry = now + ttl * 1000\<rparr>)"
proof (intro conjI impI)
  show "length (memoryCache (run_sets CacheManager calls)) \<le> 1000"
    by (rule run_sets_bounded)
next
  assume "length (memoryCache c) \<le> maxMemoryItems c \<and> 0 < maxMemoryItems c"
  then show "length (memoryCache (setMemoryCache c k v ttl now)) \<le> maxMemoryItems c"
    by (simp add: setMemoryCache_size)
next
  assume "map_wf (memoryCache c) \<and> length (memoryCache c) \<ge> maxMemoryItems c
        \<and> memoryCache c = (k0, e0) # rest"
  then have wf: "map_wf (memoryCache c)" and eq: "memoryCache c = (k0, e0) # rest"
    by blast+
  from wf have "distinct (map fst ((k0, e0) # rest))"
    unfolding map_wf_def eq .
  then show "k0 \<notin> fst ` set rest"
    by (rule k0_fresh)
next
  assume "map_wf (memoryCache c) \<and> length (memoryCache c) \<ge> maxMemoryItems c
        \<and> memoryCache c = (k0, e0) # rest"
  then have "map_wf (memoryCache c)" and "length (memoryCache c) \<ge> maxMemoryItems c"
    and "memoryCache c = (k0, e0) # rest"
    by blast+
  then show "memoryCache (setMemoryCache c k v ttl now) =
            map_set rest k \<lparr>data = v, expiry = now + ttl * 1000\<rparr>"
    by (rule setMemoryCache_evicts)
qed

theorem memory_tier_bounded_witness:
  "length (memoryCache (setMemoryCache full_cache ''q'' 5 60 1000)) \<le> 1000
   \<and> ''k'' \<notin> fst ` set (map (\<lambda>i. (replicate (Suc i) CHR ''k'', \<lparr>data = i, expiry = 0\<rparr>))
                           [1..<1000])
   \<and> memoryCache (setMemoryCache full_cache ''q'' 5 60 1000) =
       map_set (map (\<lambda>i. (replicate (Suc i) CHR ''k'', \<lparr>data = i, expiry = 0\<rparr>)) [1..<1000])
         ''q'' \<lparr>data = 5, expiry = 61000\<rparr>"
proof -
  have 1: "length (memoryCache full_cache) \<le> maxMemoryItems full_cache
             \<and> 0 < maxMemoryItems full_cache"
    by (simp add: full_cache_size)
  have 2: "map_wf (memoryCache full_cache)
             \<and> maxMemoryItems full_cache \<le> length (memoryCache full_cache)
             \<and> memoryCache full_cache =
                 (''k'', \<lparr>data = 0, expiry = 0\<rparr>)
                   # map (\<lambda>i. (replicate (Suc i) CHR ''k'', \<lparr>data = i, expiry = 0\<rparr>))
                       [1..<1000]"
    using full_cache_wf full_cache_first by (simp add: full_cache_size)
  note th = memory_tier_bounded[of "[]" full_cache "''q''" 5 60 1000 "''k''"
      "\<lparr>data = 0, expiry = 0\<rparr>"
      "map (\<lambda>i. (replicate (Suc i) CHR ''k'', \<lparr>data = i, expiry = 0\<rparr>)) [1..<1000]"]
  from th 1 have a: "length (memoryCache (setMemoryCache full_cache ''q'' 5 60 1000))
                       \<le> maxMemoryItems full_cache"
    by blast
  from th 2 have b: "''k'' \<notin> fst ` set (map (\<lambda>i. (replicate (Suc i) CHR ''k'',
                          \<lparr>data = i, expiry = 0\<rparr>)) [1..<1000])
    \<and> memoryCache (setMemoryCache full_cache ''q'' 5 60 1000) =
       map_set (map (\<lambda>i. (replicate (Suc i) CHR ''k'', \<lparr>data = i, expiry = 0\<rparr>)) [1..<1000])
         ''q'' \<lparr>data = 5, expiry = 1000 + 60 * 1000\<rparr>"
    by blast
  show ?thesis
    using a b by (simp add: full_cache_size)
qed

section \<open>Properties of the rate limiter\<close>

text \<open>The token count never exceeds the capacity, and an unsuspended acquire leaves it at 0 or more.\<close>

lemma refill_capacity: "capacity (refill rl now) = capacity rl"
  by (simp add: refill_def)

lemma refill_bounded: "tokens (refill rl now) \<le> capacity (refill rl now)"
  by (simp add: refill_def)

lemma rl_step_bounded:
  "tokens (rl_step rl call) \<le> capacity (rl_step rl call) \<and> capacity (rl_step rl call) = capacity rl"
proof (cases call)
  case (WaitForSlot now late)
  have a: "tokens (refill rl now) - 1 \<le> capacity rl"
    using refill_bounded[of rl now] by (simp add: refill_capacity)
  have b: "tokens (refill (refill rl now) t) - 1 \<le> capacity rl" for t
    using refill_bounded[of "refill rl now" t] by (simp add: refill_capacity)
  show ?thesis
    using WaitForSlot a b by (simp add: waitForSlot_def Let_def refill_capacity)
next
  case (Refill now)
  then show ?thesis using refill_bounded[of rl now] by (simp add: refill_capacity)
next
  case (GetRemaining now)
  then show ?thesis
    using refill_bounded[of rl now] by (simp add: getRemaining_def Let_def refill_capacity)
qed

lemma rl_run_bounded:
  "tokens rl \<le> capacity rl \<Longrightarrow> tokens (rl_run rl calls) \<le> capacity (rl_run rl calls)"
  unfolding rl_run_def
proof (induction calls arbitrary: rl)
  case Nil
  then show ?case by simp
next
  case (Cons call calls)
  have "tokens (rl_step rl call) \<le> capacity (rl_step rl call)"
    using rl_step_bounded by blast
  from Cons.IH[OF this] show ?case by simp
qed

lemma rl_run_constructor_bounded:
  "tokens (rl_run (RateLimiter cap rate t0) calls)
     \<le> capacity (rl_run (RateLimiter cap rate t0) calls)"
  by (rule rl_run_bounded) (simp add: RateLimiter_def)

lemma refill_no_credit:
  assumes "tokens rl \<le> capacity rl" and "tokensToAdd rl now = 0"
  shows "refill rl now = rl\<lparr>lastRefill := now\<rparr>"
  using assms by (simp add: refill_def min_def)

lemma rl_run_refillRate: "refillRate (rl_run rl calls) = refillRate rl"
  unfolding rl_run_def
proof (induction calls arbitrary: rl)
  case Nil
  then show ?case by simp
next
  case (Cons call calls)
  have "refillRate (rl_step rl call) = refillRate rl"
    by (cases call) (simp_all add: waitForSlot_def getRemaining_def refill_def Let_def)
  with Cons.IH[of "rl_step rl call"] show ?case by simp
qed

lemma waitForSlot_immediate_nonneg:
  "\<not> snd (waitForSlot rl now late) \<Longrightarrow> 0 \<le> tokens (fst (waitForSlot rl now late))"
  by (simp add: waitForSlot_def Let_def split: if_splits)

text \<open>Evaluation of the double arithmetic on numerals.\<close>

lemmas fl_eval = fl_def scale_down.simps scale_up.simps round_even_def pow2_def Let_def

lemma fl_examples:
  "fl (1 / 49) = 5882252574524729 / 288230376151711744"
  "fl (49 * fl (1 / 49)) = 9007199254740991 / 9007199254740992"
  "fl (5 / 6) = 7505999378950827 / 9007199254740992"
  "fl (2 ^ 53 + 1) = 2 ^ 53"
  by (simp_all add: fl_eval)

text \<open>
  The suspended path on an empty limiter of capacity 1 and \<^verbatim>\<open>refillRate\<close> 60, when the timer
  fires one second late and when it fires almost a minute late.
\<close>

lemma waitForSlot_suspended_negative:
  "waitForSlot \<lparr>capacity = 1, tokens = 0, refillRate = 60, lastRefill = 0\<rparr> 0 1000 =
     (\<lparr>capacity = 1, tokens = - 1, refillRate = 60, lastRefill = 1017\<rparr>, True)"
  "waitForSlot \<lparr>capacity = 1, tokens = 0, refillRate = 60, lastRefill = 0\<rparr> 0 59982 =
     (\<lparr>capacity = 1, tokens = - 1, refillRate = 60, lastRefill = 59999\<rparr>, True)"
  by (simp_all add: waitForSlot_def refill_def tokensToAdd_def waitTime_def fl_eval)

text \<open>
  C1. The lower bound fails. A limiter of capacity 1 and \<^verbatim>\<open>refillRate\<close> 60 gives its only
  token to the first \<^verbatim>\<open>waitForSlot\<close>. The second one, at the same instant, finds no token and
  is suspended for \<open>\<lceil>1000 / 60\<rceil> = 17\<close> ms; when its timer fires, the refill adds
  \<open>\<lfloor>0.017 * 1 / 60\<rfloor> = 0\<close> tokens and the decrement is made without the check
  \<^verbatim>\<open>tokens >= 1\<close> of the unsuspended path: the call returns with \<open>-1\<close> tokens. The same
  happens to the 51st of 51 immediate calls on a limiter of capacity 50.
\<close>

theorem waitForSlot_negative_tokens:
  "rl_run (RateLimiter 1 60 0) [WaitForSlot 0 0] =
     \<lparr>capacity = 1, tokens = 0, refillRate = 60, lastRefill = 0\<rparr>
   \<and> waitForSlot \<lparr>capacity = 1, tokens = 0, refillRate = 60, lastRefill = 0\<rparr> 0 0 =
       (\<lparr>capacity = 1, tokens = - 1, refillRate = 60, lastRefill = 17\<rparr>, True)
   \<and> tokens (rl_run (RateLimiter 50 60 0) (replicate 51 (WaitForSlot 0 0))) = - 1"
  by (simp add: rl_run_def RateLimiter_def waitForSlot_def refill_def tokensToAdd_def
      waitTime_def fl_eval eval_nat_numeral)

text \<open>
  C10. In every state that a limiter reaches from its construction (with a \<^verbatim>\<open>refillRate\<close>
  other than 0), a refill whose token credit, as the source computes it, is floored to 0
  leaves the token count as it is and still moves \<^verbatim>\<open>lastRefill\<close> to the current time. So
  the fraction is lost: on an empty limiter of capacity 1 and \<^verbatim>\<open>refillRate\<close> 1, refills at
  500 ms and at 1000 ms add no token, and a single refill at 1000 ms adds one.
\<close>

theorem refill_discards_fractional_credit:
  "(rate \<noteq> 0 \<and> tokensToAdd (rl_run (RateLimiter cap rate t0) calls) now = 0 \<longrightarrow>
      refill (rl_run (RateLimiter cap rate t0) calls) now =
        (rl_run (RateLimiter cap rate t0) calls)\<lparr>lastRefill := now\<rparr>)
   \<and> tokens (rl_run (RateLimiter 1 1 0) [WaitForSlot 0 0]) = 0
   \<and> tokens (refill (refill (rl_run (RateLimiter 1 1 0) [WaitForSlot 0 0]) 500) 1000) = 0
   \<and> tokens (refill (rl_run (RateLimiter 1 1 0) [WaitForSlot 0 0]) 1000) = 1"
proof (intro conjI impI)
  assume "rate \<noteq> 0 \<and> tokensToAdd (rl_run (RateLimiter cap rate t0) calls) now = 0"
  then have "tokensToAdd (rl_run (RateLimiter cap rate t0) calls) now = 0"
    by simp
  with rl_run_constructor_bounded[of cap rate t0 calls]
  show "refill (rl_run (RateLimiter cap rate t0) calls) now =
        (rl_run (RateLimiter cap rate t0) calls)\<lparr>lastRefill := now\<rparr>"
    by (rule refill_no_credit)
qed (simp_all add: rl_run_def RateLimiter_def waitForSlot_def refill_def tokensToAdd_def
      waitTime_def fl_eval)

text \<open>
  Instances: half a token of credit after 500 ms at capacity 1 and \<^verbatim>\<open>refillRate\<close> 1; and the
  credit after 49 s at \<^verbatim>\<open>refillRate\<close> 49, and after 1.9 s at capacity 10 and \<^verbatim>\<open>refillRate\<close> 19,
  where the product of the two doubles is the double just below 1.
\<close>

theorem refill_discards_fractional_credit_witness:
  "refill (rl_run (RateLimiter 1 1 0) [WaitForSlot 0 0]) 500 =
     \<lparr>capacity = 1, tokens = 0, refillRate = 1, lastRefill = 500\<rparr>
   \<and> refill (rl_run (RateLimiter 1 49 0) [WaitForSlot 0 0]) 49000 =
     \<lparr>capacity = 1, tokens = 0, refillRate = 49, lastRefill = 49000\<rparr>
   \<and> refill (rl_run (RateLimiter 10 19 0) [WaitForSlot 0 0]) 1900 =
     \<lparr>capacity = 10, tokens = 9, refillRate = 19, lastRefill = 1900\<rparr>"
proof -
  have run1: "rl_run (RateLimiter 1 1 0) [WaitForSlot 0 0] =
                \<lparr>capacity = 1, tokens = 0, refillRate = 1, lastRefill = 0\<rparr>"
    by (simp add: rl_run_def RateLimiter_def waitForSlot_def refill_def tokensToAdd_def fl_eval)
  have run2: "rl_run (RateLimiter 1 49 0) [WaitForSlot 0 0] =
                \<lparr>capacity = 1, tokens = 0, refillRate = 49, lastRefill = 0\<rparr>"
    by (simp add: rl_run_def RateLimiter_def waitForSlot_def refill_def tokensToAdd_def fl_eval)
  have run3: "rl_run (RateLimiter 10 19 0) [WaitForSlot 0 0] =
                \<lparr>capacity = 10, tokens = 9, refillRate = 19, lastRefill = 0\<rparr>"
    by (simp add: rl_run_def RateLimiter_def waitForSlot_def refill_def tokensToAdd_def fl_eval)
  have hyp1: "(1::real) \<noteq> 0
                \<and> tokensToAdd (rl_run (RateLimiter 1 1 0) [WaitForSlot 0 0]) 500 = 0"
    by (simp add: run1 tokensToAdd_def fl_eval)
  have hyp2: "(49::real) \<noteq> 0
                \<and> tokensToAdd (rl_run (RateLimiter 1 49 0) [WaitForSlot 0 0]) 49000 = 0"
    by (simp add: run2 tokensToAdd_def fl_eval)
  have hyp3: "(19::real) \<noteq> 0
                \<and> tokensToAdd (rl_run (RateLimiter 10 19 0) [WaitForSlot 0 0]) 1900 = 0"
    by (simp add: run3 tokensToAdd_def fl_eval)
  from refill_discards_fractional_credit[of 1 1 0 "[WaitForSlot 0 0]" 500] hyp1
  have 1: "refill (rl_run (RateLimiter 1 1 0) [WaitForSlot 0 0]) 500 =
             (rl_run (RateLimiter 1 1 0) [WaitForSlot 0 0])\<lparr>lastRefill := 500\<rparr>"
    by blast
  from refill_discards_fractional_credit[of 49 1 0 "[WaitForSlot 0 0]" 49000] hyp2
  have 2: "refill (rl_run (RateLimiter 1 49 0) [WaitForSlot 0 0]) 49000 =
             (rl_run (RateLimiter 1 49 0) [WaitForSlot 0 0])\<lparr>lastRefill := 49000\<rparr>"
    by blast
  from refill_discards_fractional_credit[of 19 10 0 "[WaitForSlot 0 0]" 1900] hyp3
  have 3: "refill (rl_run (RateLimiter 10 19 0) [WaitForSlot 0 0]) 1900 =
             (rl_run (RateLimiter 10 19 0) [WaitForSlot 0 0])\<lparr>lastRefill := 1900\<rparr>"
    by blast
  show ?thesis
    unfolding 1 2 3 by (simp add: run1 run2 run3)
qed

section \<open>Properties of the batch entry point\<close>

text \<open>
  A list of queries that is empty or longer than 100 is always answered with status 400,
  and the batch is processed exactly when the middleware passes and the list has 1 to 100
  elements.
\<close>

lemma post_batch_rejects_size:
  assumes "map_of b ''queries'' = Some (JArr qs)" and "qs = [] \<or> length qs > 100"
  shows "\<exists>msg. post_batch b = Response 400 msg"
proof (cases "validateQuery b")
  case (Response st msg)
  then have "st = 400"
    by (auto simp: validateQuery_def Let_def split: if_splits option.splits json.splits)
  with Response show ?thesis by (simp add: post_batch_def)
next
  case Next
  with assms show ?thesis by (auto simp: post_batch_def batch_handler_def)
next
  case (ProcessBatch qs' opts)
  then show ?thesis
    by (auto simp: validateQuery_def Let_def split: if_splits option.splits json.splits)
qed

lemma post_batch_processes_iff:
  "post_batch b = ProcessBatch qs opts \<longleftrightarrow>
     validateQuery b = Next \<and> map_of b ''queries'' = Some (JArr qs)
     \<and> 1 \<le> length qs \<and> length qs \<le> 100
     \<and> opts = (case map_of b ''options'' of None \<Rightarrow> JObj [] | Some x \<Rightarrow> x)"
proof (cases "validateQuery b")
  case (Response st msg)
  then show ?thesis by (simp add: post_batch_def)
next
  case Next
  then show ?thesis
    by (auto simp: post_batch_def batch_handler_def Let_def Suc_le_eq
        split: option.splits json.splits)
next
  case (ProcessBatch qs' opts')
  then show ?thesis
    by (auto simp: validateQuery_def Let_def split: if_splits option.splits json.splits)
qed

text \<open>
  C9. The second half fails. The middleware \<^verbatim>\<open>validateQuery\<close> of the route looks at the
  property \<^verbatim>\<open>query\<close>, which a batch request does not carry: the body
  \<^verbatim>\<open>{"queries": ["aspirin dosage"]}\<close>, which the handler alone would hand to
  \<^verbatim>\<open>processBatch\<close>, is answered with status 400, \<^verbatim>\<open>Query is required\<close>.
\<close>

theorem post_batch_requires_query:
  "batch_handler [(''queries'', JArr [JStr ''aspirin dosage''])] =
     ProcessBatch [JStr ''aspirin dosage''] (JObj [])
   \<and> post_batch [(''queries'', JArr [JStr ''aspirin dosage''])] =
       Response 400 ''Query is required''"
  by (simp add: post_batch_def validateQuery_def batch_handler_def)

end
